theory Spec2Isabelle
  imports Complex_Main
begin

section \<open>Tokens, cursor and the maximum-exponent accumulator\<close>

text \<open>
  Modelled from the spec: the token type, declared in \<open>scanner.h\<close>, which is not among the
  sources. A list node carries a token type \<open>tt\<close> (Number, Identifier or Symbol) and a
  payload \<open>t\<close>, a union with the members \<open>number\<close>, \<open>identifier\<close> and \<open>symbol\<close>; the tagged
  union is a datatype. The payload of a Number token is a numeric value, integer or real;
  \<open>valueNumber\<close> assigns it to a \<open>double\<close>. It is a rational number here, which covers an
  integer payload as well as a fractional one.
\<close>

datatype token = Number rat | Identifier string | Symbol char

text \<open>
  The matchers work on \<open>List *lp\<close>, a cursor into the token list passed by reference, and
  on the global \<open>int biggestExponent\<close>. Both are fields of the state that every matcher
  takes and returns. The \<open>NULL\<close> list is \<open>[]\<close>. The \<open>int\<close> result of a matcher is only
  ever 0 or 1 and is modelled as a \<open>bool\<close> (\<open>True\<close> for 1).
\<close>

record state =
  lp :: "token list"
  biggestExponent :: int

section \<open>Primitive matchers\<close>

definition acceptNumber :: "state \<Rightarrow> bool \<times> state" where
  "acceptNumber s =
     (case lp s of
        Number v # next \<Rightarrow> (True, s\<lparr>lp := next\<rparr>)
      | _ \<Rightarrow> (False, s))"

definition acceptIdentifier :: "state \<Rightarrow> bool \<times> state" where
  "acceptIdentifier s =
     (case lp s of
        Identifier n # next \<Rightarrow> (True, s\<lparr>lp := next\<rparr>)
      | _ \<Rightarrow> (False, s))"

definition acceptCharacter :: "state \<Rightarrow> char \<Rightarrow> bool \<times> state" where
  "acceptCharacter s c =
     (case lp s of
        Symbol d # next \<Rightarrow> (if d = c then (True, s\<lparr>lp := next\<rparr>) else (False, s))
      | _ \<Rightarrow> (False, s))"

section \<open>Reading an exponent\<close>

text \<open>
  The assignment \<open>biggestExponent = *wp\<close> converts a \<open>double\<close> to an \<open>int\<close>. The conversion
  discards the fractional part (truncation toward zero).
\<close>

definition trunc_toward_zero :: "rat \<Rightarrow> int" where
  "trunc_toward_zero x = (if 0 \<le> x then \<lfloor>x\<rfloor> else \<lceil>x\<rceil>)"

text \<open>The \<open>int\<close> type has 32 bits: these are its bounds, and the values it holds.\<close>

definition INT_MAX :: int where
  "INT_MAX = 2147483647"

definition INT_MIN :: int where
  "INT_MIN = - 2147483648"

definition int_value :: "int \<Rightarrow> bool" where
  "int_value n \<longleftrightarrow> INT_MIN \<le> n \<and> n \<le> INT_MAX"

text \<open>A \<open>double\<close> whose integral part is a value of \<open>int\<close>.\<close>

definition in_int_range :: "rat \<Rightarrow> bool" where
  "in_int_range x \<longleftrightarrow> int_value (trunc_toward_zero x)"

text \<open>
  C defines the conversion of a \<open>double\<close> to \<open>int\<close> only when the integral part is a value
  of \<open>int\<close>; otherwise the behaviour is undefined. The program compiled for x86-64
  converts with an instruction that delivers \<open>INT_MIN\<close> in that case (3000000000 becomes
  -2147483648), and this is the result taken here.
\<close>

definition double_to_int :: "rat \<Rightarrow> int" where
  "double_to_int x = (if in_int_range x then trunc_toward_zero x else INT_MIN)"

text \<open>
  \<open>valueNumber lp wp\<close>: the second component of the result is the new content of \<open>*wp\<close>.
  In the comparison \<open>*wp > biggestExponent\<close> the integer is converted to \<open>double\<close>, which
  is exact for a value of \<open>int\<close>. The assignment stores \<open>double_to_int\<close> of the payload, so
  an accumulator that is a value of \<open>int\<close> stays one.
\<close>

definition valueNumber :: "state \<Rightarrow> rat \<Rightarrow> bool \<times> rat \<times> state" where
  "valueNumber s wp =
     (case lp s of
        Number v # next \<Rightarrow>
          (let wp' = v;
               s1 = s\<lparr>lp := next\<rparr>;
               s2 = (if of_int (biggestExponent s1) < wp'
                     then s1\<lparr>biggestExponent := double_to_int wp'\<rparr> else s1)
           in (True, wp', s2))
      | _ \<Rightarrow> (False, wp, s))"

definition acceptExponent :: "state \<Rightarrow> bool \<times> state" where
  "acceptExponent s =
     (let wp = 0;
          (r1, s1) = acceptCharacter s CHR ''^''
      in if r1 then
           (let (r2, s2) = acceptCharacter s1 CHR ''-''
            in if r2 then (False, s2)
               else (let (r3, wp', s3) = valueNumber s2 wp in (r3, s3)))
         else (True, s1))"

section \<open>Terms, expressions, equations\<close>

definition acceptTerm :: "state \<Rightarrow> bool \<times> state" where
  "acceptTerm s =
     (let (r1, s1) = acceptNumber s
      in if r1 then
           (let (r2, s2) = acceptIdentifier s1
            in if r2 then acceptExponent s2 else (True, s2))
         else
           (let (r2, s2) = acceptIdentifier s1
            in if r2 then acceptExponent s2 else (False, s2)))"

lemma acceptCharacter_length:
  "acceptCharacter s c = (r, s') \<Longrightarrow> length (lp s') \<le> length (lp s)"
  by (auto simp: acceptCharacter_def split: list.splits token.splits if_splits)

lemma acceptCharacter_True_length:
  "acceptCharacter s c = (True, s') \<Longrightarrow> length (lp s') < length (lp s)"
  by (auto simp: acceptCharacter_def split: list.splits token.splits if_splits)

lemma acceptNumber_length:
  "acceptNumber s = (r, s') \<Longrightarrow> length (lp s') \<le> length (lp s)"
  by (auto simp: acceptNumber_def split: list.splits token.splits)

lemma acceptIdentifier_length:
  "acceptIdentifier s = (r, s') \<Longrightarrow> length (lp s') \<le> length (lp s)"
  by (auto simp: acceptIdentifier_def split: list.splits token.splits)

lemma valueNumber_length:
  "valueNumber s wp = (r, wp', s') \<Longrightarrow> length (lp s') \<le> length (lp s)"
  by (auto simp: valueNumber_def Let_def split: list.splits token.splits if_splits)

lemma acceptExponent_length:
  "acceptExponent s = (r, s') \<Longrightarrow> length (lp s') \<le> length (lp s)"
  unfolding acceptExponent_def Let_def
  by (auto split: prod.splits if_splits
      dest!: acceptCharacter_length valueNumber_length)

lemma acceptTerm_length:
  "acceptTerm s = (r, s') \<Longrightarrow> length (lp s') \<le> length (lp s)"
  unfolding acceptTerm_def Let_def
  by (auto split: prod.splits if_splits
      dest!: acceptNumber_length acceptIdentifier_length acceptExponent_length)

text \<open>
  The \<open>while\<close> loop of \<open>acceptExpression\<close>: its condition tries \<open>'+'\<close> and, only when that
  fails, \<open>'-'\<close>; its body returns 0 from the function when no term follows.
\<close>

function acceptExpression_while :: "state \<Rightarrow> bool \<times> state" where
  "acceptExpression_while s =
     (let (r1, s1) = acceptCharacter s CHR ''+'';
          (r2, s2) = (if r1 then (True, s1) else acceptCharacter s1 CHR ''-'')
      in if r2 then
           (let (r3, s3) = acceptTerm s2
            in if \<not> r3 then (False, s3) else acceptExpression_while s3)
         else (True, s2))"
  by pat_completeness auto
termination
proof (relation "measure (\<lambda>s. length (lp s))")
  show "wf (measure (\<lambda>s. length (lp s)))" by simp
next
  fix s :: state and x1 r1 s1 x2 r2 s2 x3 r3 s3
  assume a: "x1 = acceptCharacter s CHR ''+''" "(r1, s1) = x1"
    "x2 = (if r1 then (True, s1) else acceptCharacter s1 CHR ''-'')" "(r2, s2) = x2"
    "r2" "x3 = acceptTerm s2" "(r3, s3) = x3" "\<not> \<not> r3"
  have l1: "length (lp s1) \<le> length (lp s)"
    using a(1,2) acceptCharacter_length [of s "CHR ''+''" r1 s1] by simp
  have l2: "length (lp s2) < length (lp s)"
  proof (cases r1)
    case True
    with a have "acceptCharacter s CHR ''+'' = (True, s2)" by simp
    then show ?thesis by (rule acceptCharacter_True_length)
  next
    case False
    with a have "acceptCharacter s1 CHR ''-'' = (True, s2)" by simp
    then have "length (lp s2) < length (lp s1)" by (rule acceptCharacter_True_length)
    with l1 show ?thesis by simp
  qed
  have "length (lp s3) \<le> length (lp s2)"
    using a(6,7) acceptTerm_length [of s2 r3 s3] by simp
  with l2 show "(s3, s) \<in> measure (\<lambda>s. length (lp s))" by simp
qed

declare acceptExpression_while.simps [simp del]

definition acceptExpression :: "state \<Rightarrow> bool \<times> state" where
  "acceptExpression s =
     (let (r1, s1) = acceptCharacter s CHR ''-''
      in if r1 then
           (let (r2, s2) = acceptTerm s1
            in if \<not> r2 then (False, s2) else acceptExpression_while s2)
         else
           (let (r2, s2) = acceptTerm s1
            in if \<not> r2 then (False, s2) else acceptExpression_while s2))"

text \<open>\<open>acceptExpression(lp) && acceptCharacter(lp,'=') && acceptExpression(lp)\<close>\<close>

definition acceptEquation :: "state \<Rightarrow> bool \<times> state" where
  "acceptEquation s =
     (let (r1, s1) = acceptExpression s
      in if r1 then
           (let (r2, s2) = acceptCharacter s1 CHR ''=''
            in if r2 then acceptExpression s2 else (False, s2))
         else (False, s1))"

section \<open>Counting variables\<close>

text \<open>
  \<open>strcmp\<close> compares two strings character by character; the sign of the result is the
  sign of the difference of the first pair of characters that differ, and a string that
  ends first is the smaller one.
\<close>

fun strcmp :: "string \<Rightarrow> string \<Rightarrow> int" where
  "strcmp [] [] = 0"
| "strcmp [] (y # ys) = - 1"
| "strcmp (x # xs) [] = 1"
| "strcmp (x # xs) (y # ys) =
     (if x = y then strcmp xs ys else int (of_char x) - int (of_char y))"

text \<open>
  The loop of \<open>determineVariables\<close>, with the local \<open>char *string\<close> as an argument
  (\<open>None\<close> for \<open>NULL\<close>). \<open>free(string)\<close> is only reached with \<open>string == NULL\<close>, where it
  does nothing.
\<close>

fun determineVariables_while :: "string option \<Rightarrow> token list \<Rightarrow> int" where
  "determineVariables_while string [] = (if string = None then 0 else 1)"
| "determineVariables_while string (Identifier n # next) =
     (let string' = (case string of None \<Rightarrow> n | Some str \<Rightarrow> str)
      in if strcmp string' n \<noteq> 0 then 2
         else determineVariables_while (Some string') next)"
| "determineVariables_while string (t # next) = determineVariables_while string next"

definition determineVariables :: "token list \<Rightarrow> int" where
  "determineVariables l = determineVariables_while None l"

section \<open>The driver\<close>

text \<open>
  What \<open>recognizeEquations\<close> prints about one line: each constructor is one \<open>printf\<close> of
  the loop body (the prompt and the echo of the token list are left out). \<open>OfDegree n\<close>
  stands for the text \<open>of degree n\<close>.
\<close>

datatype message =
    EquationInOneVariable
  | OfDegree int
  | EquationNotInOneVariable
  | NotAnEquation

text \<open>
  The body of the loop of \<open>recognizeEquations\<close> for the token list of one input
  line, from the value \<open>b\<close> of \<open>biggestExponent\<close> before the line to the messages printed
  and the value of \<open>biggestExponent\<close> after the line.
\<close>

definition recognizeLine :: "token list \<Rightarrow> int \<Rightarrow> message list \<times> int" where
  "recognizeLine tlist b =
     (let (r, s) = acceptEquation \<lparr>lp = tlist, biggestExponent = b\<rparr>
      in if r \<and> lp s = [] then
           (if determineVariables tlist = 1 then
              (if biggestExponent s = 0
               then ([EquationInOneVariable, OfDegree 1], 0)
               else ([EquationInOneVariable, OfDegree (biggestExponent s)], 0))
            else if determineVariables tlist \<noteq> 1 then
              ([EquationNotInOneVariable], biggestExponent s)
            else ([], biggestExponent s))
         else ([NotAnEquation], biggestExponent s))"

text \<open>
  The loop of \<open>recognizeEquations\<close> over the token lists of the lines read before the
  line that starts with \<open>'!'\<close>; the result lists, for every line, the value of
  \<open>biggestExponent\<close> when the matching of that line starts and the messages printed.
\<close>

fun recognizeEquations :: "token list list \<Rightarrow> int \<Rightarrow> (int \<times> message list) list" where
  "recognizeEquations [] b = []"
| "recognizeEquations (tlist # rest) b =
     (let (out, b') = recognizeLine tlist b in (b, out) # recognizeEquations rest b')"

section \<open>Notions the properties are stated with\<close>

text \<open>
  The exponent values of a token sequence: the payload of every Number token that
  directly follows a \<open>'^'\<close>.
\<close>

primrec exponents :: "token list \<Rightarrow> rat list" where
  "exponents [] = []"
| "exponents (t # ts) =
     (if t = Symbol CHR ''^''
      then (case ts of Number v # rest \<Rightarrow> v # exponents ts | _ \<Rightarrow> exponents ts)
      else exponents ts)"

text \<open>The spellings of the Identifier tokens of a token list, in order.\<close>

primrec identifiers :: "token list \<Rightarrow> string list" where
  "identifiers [] = []"
| "identifiers (t # ts) =
     (case t of Identifier n \<Rightarrow> n # identifiers ts | _ \<Rightarrow> identifiers ts)"

text \<open>
  The largest of a start value and the exponent values of a list, each converted to
  \<open>int\<close> as the assignment to \<open>biggestExponent\<close> does.
\<close>

definition maxExponent :: "int \<Rightarrow> rat list \<Rightarrow> int" where
  "maxExponent b vs = Max (insert b (double_to_int ` set vs))"

text \<open>
  \<open>parsed s p\<close>: the result \<open>p\<close> of a matcher started in \<open>s\<close> has consumed a prefix of the
  cursor; when the exponents of that prefix are in the range of \<open>int\<close>, it has raised the
  accumulator to the largest of them; it has kept the accumulator a value of \<open>int\<close>; a
  prefix that was accepted does not end with a dangling \<open>'^'\<close>.
\<close>

definition parsed :: "state \<Rightarrow> bool \<times> state \<Rightarrow> bool" where
  "parsed s p \<longleftrightarrow>
     (\<exists>pre. lp s = pre @ lp (snd p) \<and>
        ((\<forall>v. v \<in> set (exponents pre) \<longrightarrow> in_int_range v) \<longrightarrow>
           biggestExponent (snd p) = maxExponent (biggestExponent s) (exponents pre)) \<and>
        (int_value (biggestExponent s) \<longrightarrow> int_value (biggestExponent (snd p))) \<and>
        (fst p \<longrightarrow> pre = [] \<or> last pre \<noteq> Symbol CHR ''^''))"

section \<open>The conversion to \<open>int\<close> and the maximum\<close>

lemma maxExponent_Nil: "maxExponent b [] = b"
  by (simp add: maxExponent_def)

lemma maxExponent_Cons:
  "maxExponent b (v # vs) = maxExponent (max b (double_to_int v)) vs"
proof (cases "vs = []")
  case True
  then show ?thesis by (simp add: maxExponent_def max.commute)
next
  case False
  then have "double_to_int ` set vs \<noteq> {}" by simp
  then show ?thesis by (simp add: maxExponent_def max.assoc)
qed

lemma maxExponent_append:
  "maxExponent b (us @ vs) = maxExponent (maxExponent b us) vs"
  by (induction us arbitrary: b) (simp_all add: maxExponent_Nil maxExponent_Cons)

lemma double_to_int_in_range: "in_int_range v \<Longrightarrow> double_to_int v = trunc_toward_zero v"
  by (simp add: double_to_int_def)

lemma int_value_double_to_int: "int_value (double_to_int v)"
  by (simp add: double_to_int_def in_int_range_def int_value_def INT_MIN_def INT_MAX_def)

lemma trunc_toward_zero_ge: "of_int b < v \<Longrightarrow> b \<le> trunc_toward_zero v"
proof (cases "0 \<le> v")
  case True
  assume "of_int b < v"
  then have "b \<le> \<lfloor>v\<rfloor>" by (simp add: le_floor_iff)
  with True show ?thesis by (simp add: trunc_toward_zero_def)
next
  case False
  assume "of_int b < v"
  then have "b < \<lceil>v\<rceil>" by (simp add: less_ceiling_iff)
  with False show ?thesis by (simp add: trunc_toward_zero_def)
qed

lemma trunc_toward_zero_le: "\<not> of_int b < v \<Longrightarrow> trunc_toward_zero v \<le> b"
proof (cases "0 \<le> v")
  case True
  assume "\<not> of_int b < v"
  then have "\<lfloor>v\<rfloor> \<le> b" by (simp add: floor_le_iff)
  with True show ?thesis by (simp add: trunc_toward_zero_def)
next
  case False
  assume "\<not> of_int b < v"
  then have "\<lceil>v\<rceil> \<le> b" by (simp add: ceiling_le_iff)
  with False show ?thesis by (simp add: trunc_toward_zero_def)
qed

lemma update_is_max:
  assumes "in_int_range v"
  shows "(if of_int b < v then double_to_int v else b) = max b (double_to_int v)"
proof (cases "of_int b < v")
  case True
  then show ?thesis
    using trunc_toward_zero_ge [of b v] assms by (simp add: double_to_int_in_range)
next
  case False
  then show ?thesis
    using trunc_toward_zero_le [of b v] assms by (simp add: double_to_int_in_range)
qed

lemma case_append:
  "pre \<noteq> [] \<Longrightarrow>
   (case pre @ post of Number v # rest \<Rightarrow> f v | _ \<Rightarrow> g) =
   (case pre of Number v # rest \<Rightarrow> f v | _ \<Rightarrow> g)"
  by (cases pre) simp_all

lemma exponents_append:
  "pre = [] \<or> last pre \<noteq> Symbol CHR ''^'' \<Longrightarrow>
   exponents (pre @ post) = exponents pre @ exponents post"
proof (induction pre)
  case Nil
  then show ?case by simp
next
  case (Cons t pre)
  show ?case
  proof (cases "pre = []")
    case True
    with Cons.prems show ?thesis by simp
  next
    case False
    with Cons.prems have "last pre \<noteq> Symbol CHR ''^''" by simp
    with Cons.IH have E: "exponents (pre @ post) = exponents pre @ exponents post" by simp
    from False show ?thesis
      by (simp add: E case_append split: list.splits token.splits)
  qed
qed

section \<open>Every matcher consumes a prefix and raises the accumulator\<close>

lemma acceptNumber_False: "acceptNumber s = (False, s') \<Longrightarrow> s' = s"
  by (auto simp: acceptNumber_def split: list.splits token.splits)

lemma acceptNumber_True:
  "acceptNumber s = (True, s') \<Longrightarrow> \<exists>v. lp s = Number v # lp s' \<and> biggestExponent s' = biggestExponent s"
  by (auto simp: acceptNumber_def split: list.splits token.splits)

lemma acceptIdentifier_False: "acceptIdentifier s = (False, s') \<Longrightarrow> s' = s"
  by (auto simp: acceptIdentifier_def split: list.splits token.splits)

lemma acceptIdentifier_True:
  "acceptIdentifier s = (True, s') \<Longrightarrow> \<exists>n. lp s = Identifier n # lp s' \<and> biggestExponent s' = biggestExponent s"
  by (auto simp: acceptIdentifier_def split: list.splits token.splits)

lemma acceptCharacter_False: "acceptCharacter s c = (False, s') \<Longrightarrow> s' = s"
  by (auto simp: acceptCharacter_def split: list.splits token.splits if_splits)

lemma acceptCharacter_True:
  "acceptCharacter s c = (True, s') \<Longrightarrow> lp s = Symbol c # lp s' \<and> biggestExponent s' = biggestExponent s"
  by (auto simp: acceptCharacter_def split: list.splits token.splits if_splits)

lemma acceptCharacter_iff:
  "fst (acceptCharacter s c) \<longleftrightarrow> (\<exists>rest. lp s = Symbol c # rest)"
  by (auto simp: acceptCharacter_def split: list.splits token.splits if_splits)

lemma parsed_refl: "parsed s (r, s)"
  by (simp add: parsed_def maxExponent_Nil)

lemma parsed_token:
  "lp s = t # lp s' \<Longrightarrow> biggestExponent s' = biggestExponent s \<Longrightarrow>
   t \<noteq> Symbol CHR ''^'' \<Longrightarrow> parsed s (r, s')"
  unfolding parsed_def
  by (rule exI [of _ "[t]"]) (simp add: maxExponent_Nil)

lemma parsed_trans:
  assumes "parsed s (True, s1)" and "parsed s1 p"
  shows "parsed s p"
proof -
  from assms(1) obtain pre1 where 1: "lp s = pre1 @ lp s1"
    "(\<forall>v. v \<in> set (exponents pre1) \<longrightarrow> in_int_range v) \<longrightarrow>
       biggestExponent s1 = maxExponent (biggestExponent s) (exponents pre1)"
    "int_value (biggestExponent s) \<longrightarrow> int_value (biggestExponent s1)"
    "pre1 = [] \<or> last pre1 \<noteq> Symbol CHR ''^''"
    by (auto simp: parsed_def)
  from assms(2) obtain pre2 where 2: "lp s1 = pre2 @ lp (snd p)"
    "(\<forall>v. v \<in> set (exponents pre2) \<longrightarrow> in_int_range v) \<longrightarrow>
       biggestExponent (snd p) = maxExponent (biggestExponent s1) (exponents pre2)"
    "int_value (biggestExponent s1) \<longrightarrow> int_value (biggestExponent (snd p))"
    "fst p \<longrightarrow> pre2 = [] \<or> last pre2 \<noteq> Symbol CHR ''^''"
    by (auto simp: parsed_def)
  have e: "exponents (pre1 @ pre2) = exponents pre1 @ exponents pre2"
    using 1(4) by (rule exponents_append)
  have "lp s = (pre1 @ pre2) @ lp (snd p)" using 1(1) 2(1) by simp
  moreover have "(\<forall>v. v \<in> set (exponents (pre1 @ pre2)) \<longrightarrow> in_int_range v) \<longrightarrow>
      biggestExponent (snd p) = maxExponent (biggestExponent s) (exponents (pre1 @ pre2))"
    using 1(2) 2(2) by (simp add: e maxExponent_append)
  moreover have "int_value (biggestExponent s) \<longrightarrow> int_value (biggestExponent (snd p))"
    using 1(3) 2(3) by simp
  moreover have "fst p \<longrightarrow> pre1 @ pre2 = [] \<or> last (pre1 @ pre2) \<noteq> Symbol CHR ''^''"
    using 1(4) 2(4) by (cases "pre2 = []") auto
  ultimately show ?thesis unfolding parsed_def by blast
qed

lemma parsed_acceptNumber: "acceptNumber s = (r, s') \<Longrightarrow> parsed s (r, s')"
  by (cases r) (auto dest!: acceptNumber_True acceptNumber_False intro: parsed_refl parsed_token)

lemma parsed_acceptIdentifier: "acceptIdentifier s = (r, s') \<Longrightarrow> parsed s (r, s')"
  by (cases r) (auto dest!: acceptIdentifier_True acceptIdentifier_False intro: parsed_refl parsed_token)

lemma parsed_acceptCharacter:
  "c \<noteq> CHR ''^'' \<Longrightarrow> acceptCharacter s c = (r, s') \<Longrightarrow> parsed s (r, s')"
  by (cases r) (auto dest!: acceptCharacter_True acceptCharacter_False intro: parsed_refl parsed_token)

lemma acceptExponent_other:
  "\<forall>rest. lp s \<noteq> Symbol CHR ''^'' # rest \<Longrightarrow> acceptExponent s = (True, s)"
  by (auto simp: acceptExponent_def acceptCharacter_def split: list.splits token.splits)

lemma acceptExponent_minus:
  "lp s = Symbol CHR ''^'' # Symbol CHR ''-'' # rest \<Longrightarrow>
   acceptExponent s = (False, s\<lparr>lp := rest\<rparr>)"
  by (simp add: acceptExponent_def acceptCharacter_def)

lemma acceptExponent_number:
  "lp s = Symbol CHR ''^'' # Number v # rest \<Longrightarrow>
   acceptExponent s =
     (True, s\<lparr>lp := rest,
              biggestExponent := (if of_int (biggestExponent s) < v then double_to_int v
                                  else biggestExponent s)\<rparr>)"
  by (simp add: acceptExponent_def acceptCharacter_def valueNumber_def Let_def)

lemma acceptExponent_neither:
  "lp s = Symbol CHR ''^'' # rest \<Longrightarrow> \<forall>rest'. rest \<noteq> Symbol CHR ''-'' # rest' \<Longrightarrow>
   \<forall>v rest'. rest \<noteq> Number v # rest' \<Longrightarrow>
   acceptExponent s = (False, s\<lparr>lp := rest\<rparr>)"
  by (auto simp: acceptExponent_def acceptCharacter_def valueNumber_def split: list.splits token.splits)

lemma parsed_acceptExponent: "parsed s (acceptExponent s)"
proof (cases "\<exists>rest. lp s = Symbol CHR ''^'' # rest")
  case False
  then show ?thesis by (simp add: acceptExponent_other parsed_refl)
next
  case True
  then obtain rest where l: "lp s = Symbol CHR ''^'' # rest" by blast
  consider (minus) rest' where "rest = Symbol CHR ''-'' # rest'"
    | (number) v rest' where "rest = Number v # rest'"
    | (neither) "\<forall>rest'. rest \<noteq> Symbol CHR ''-'' # rest'" "\<forall>v rest'. rest \<noteq> Number v # rest'"
    by blast
  then show ?thesis
  proof cases
    case minus
    with l have "acceptExponent s = (False, s\<lparr>lp := rest'\<rparr>)"
      by (simp add: acceptExponent_minus)
    moreover have "parsed s (False, s\<lparr>lp := rest'\<rparr>)"
      unfolding parsed_def using l minus
      by (intro exI [of _ "[Symbol CHR ''^'', Symbol CHR ''-'']"]) (simp add: maxExponent_Nil)
    ultimately show ?thesis by simp
  next
    case number
    let ?b = "if of_int (biggestExponent s) < v then double_to_int v else biggestExponent s"
    from l number have "acceptExponent s = (True, s\<lparr>lp := rest', biggestExponent := ?b\<rparr>)"
      by (simp add: acceptExponent_number)
    moreover have "parsed s (True, s\<lparr>lp := rest', biggestExponent := ?b\<rparr>)"
      unfolding parsed_def using l number int_value_double_to_int [of v]
        update_is_max [of v "biggestExponent s"]
      by (intro exI [of _ "[Symbol CHR ''^'', Number v]"])
        (simp add: maxExponent_Nil maxExponent_Cons)
    ultimately show ?thesis by simp
  next
    case neither
    with l have "acceptExponent s = (False, s\<lparr>lp := rest\<rparr>)"
      by (simp add: acceptExponent_neither)
    moreover have "parsed s (False, s\<lparr>lp := rest\<rparr>)"
      unfolding parsed_def using l
      by (intro exI [of _ "[Symbol CHR ''^'']"]) (simp add: maxExponent_Nil)
    ultimately show ?thesis by simp
  qed
qed

lemma parsed_acceptTerm: "parsed s (acceptTerm s)"
proof -
  obtain r1 s1 where n: "acceptNumber s = (r1, s1)" by (cases "acceptNumber s")
  obtain r2 s2 where i: "acceptIdentifier s1 = (r2, s2)" by (cases "acceptIdentifier s1")
  show ?thesis
  proof (cases r1)
    case True
    with n have p1: "parsed s (True, s1)" by (simp add: parsed_acceptNumber)
    show ?thesis
    proof (cases r2)
      case True
      with i have "parsed s1 (True, s2)" by (simp add: parsed_acceptIdentifier)
      with p1 have "parsed s (True, s2)" by (rule parsed_trans)
      then have "parsed s (acceptExponent s2)"
        using parsed_acceptExponent by (rule parsed_trans)
      with n i \<open>r1\<close> True show ?thesis by (simp add: acceptTerm_def)
    next
      case False
      with i have "s2 = s1" by (simp add: acceptIdentifier_False)
      with n i \<open>r1\<close> False p1 show ?thesis by (simp add: acceptTerm_def)
    qed
  next
    case False
    with n have s1: "s1 = s" by (simp add: acceptNumber_False)
    show ?thesis
    proof (cases r2)
      case True
      with i s1 have "parsed s (True, s2)" by (simp add: parsed_acceptIdentifier)
      then have "parsed s (acceptExponent s2)"
        using parsed_acceptExponent by (rule parsed_trans)
      with n i \<open>\<not> r1\<close> True show ?thesis by (simp add: acceptTerm_def)
    next
      case False
      with i s1 have "s2 = s" by (simp add: acceptIdentifier_False)
      with n i \<open>\<not> r1\<close> False s1 show ?thesis by (simp add: acceptTerm_def parsed_refl)
    qed
  qed
qed

lemma parsed_acceptExpression_while:
  "parsed s (acceptExpression_while s)"
proof (induction s rule: acceptExpression_while.induct)
  case (1 s)
  obtain r1 s1 where c1: "acceptCharacter s CHR ''+'' = (r1, s1)"
    by (cases "acceptCharacter s CHR ''+''")
  obtain r2 s2 where c2: "(if r1 then (True, s1) else acceptCharacter s1 CHR ''-'') = (r2, s2)"
    by (cases "if r1 then (True, s1) else acceptCharacter s1 CHR ''-''")
  obtain r3 s3 where t: "acceptTerm s2 = (r3, s3)" by (cases "acceptTerm s2")
  have p2: "parsed s (r2, s2)"
  proof (cases r1)
    case True
    with c1 c2 show ?thesis by (auto intro: parsed_acceptCharacter)
  next
    case False
    with c1 have "s1 = s" by (simp add: acceptCharacter_False)
    with False c2 show ?thesis by (auto intro: parsed_acceptCharacter)
  qed
  show ?case
  proof (cases r2)
    case False
    with c2 have "s2 = s"
      using c1 by (auto split: if_splits dest: acceptCharacter_False)
    with c1 c2 False show ?thesis
      by (subst acceptExpression_while.simps) (simp add: parsed_refl)
  next
    case True
    have p3: "parsed s (r3, s3)"
      using p2 True t parsed_acceptTerm [of s2] by (auto intro: parsed_trans)
    show ?thesis
    proof (cases r3)
      case False
      with c1 c2 t True p3 show ?thesis
        by (subst acceptExpression_while.simps) simp
    next
      case r3: True
      have "parsed s3 (acceptExpression_while s3)"
        using "1.IH" [OF c1 [symmetric] refl c2 [symmetric] refl True t [symmetric] refl] r3
        by simp
      with p3 r3 have "parsed s (acceptExpression_while s3)" by (auto intro: parsed_trans)
      with c1 c2 t True r3 show ?thesis
        by (subst acceptExpression_while.simps) simp
    qed
  qed
qed

lemma parsed_acceptExpression: "parsed s (acceptExpression s)"
proof -
  obtain r1 s1 where c: "acceptCharacter s CHR ''-'' = (r1, s1)"
    by (cases "acceptCharacter s CHR ''-''")
  obtain r2 s2 where t: "acceptTerm s1 = (r2, s2)" by (cases "acceptTerm s1")
  have e: "acceptExpression s = (if \<not> r2 then (False, s2) else acceptExpression_while s2)"
    using c t by (simp add: acceptExpression_def)
  have p1: "parsed s (True, s1)"
  proof (cases r1)
    case True
    with c show ?thesis by (auto intro: parsed_acceptCharacter)
  next
    case False
    with c have "s1 = s" by (simp add: acceptCharacter_False)
    then show ?thesis by (simp add: parsed_refl)
  qed
  have p2: "parsed s (r2, s2)"
    using p1 t parsed_acceptTerm [of s1] by (auto intro: parsed_trans)
  show ?thesis
  proof (cases r2)
    case False
    with e p2 show ?thesis by simp
  next
    case True
    with p2 have "parsed s (acceptExpression_while s2)"
      using parsed_acceptExpression_while [of s2] by (auto intro: parsed_trans)
    with e True show ?thesis by simp
  qed
qed

lemma acceptEquation_unfold:
  "acceptEquation s =
     (if fst (acceptExpression s) then
        (if fst (acceptCharacter (snd (acceptExpression s)) CHR ''='')
         then acceptExpression (snd (acceptCharacter (snd (acceptExpression s)) CHR ''=''))
         else (False, snd (acceptExpression s)))
      else (False, snd (acceptExpression s)))"
  by (auto simp: acceptEquation_def split: prod.splits dest: acceptCharacter_False)


lemma parsed_suffix: "parsed s p \<Longrightarrow> set (lp (snd p)) \<subseteq> set (lp s)"
proof -
  assume "parsed s p"
  then obtain pre where "lp s = pre @ lp (snd p)" unfolding parsed_def by blast
  then show ?thesis by simp
qed






section \<open>Evaluation on concrete token lists\<close>

lemmas eval_simps = acceptNumber_def acceptIdentifier_def acceptCharacter_def valueNumber_def
  acceptExponent_def acceptTerm_def acceptExpression_while.simps acceptExpression_def
  acceptEquation_def double_to_int_def in_int_range_def int_value_def INT_MIN_def INT_MAX_def
  trunc_toward_zero_def

section \<open>The exponent clause\<close>

text \<open>
  C5. \<open>acceptExponent\<close>, for any cursor: when the next token is not \<open>'^'\<close> it returns 1 and
  consumes nothing; when it is \<open>'^'\<close> that token is consumed, and then a following \<open>'-'\<close>
  makes the matcher fail (the \<open>'-'\<close> is consumed as well), a following Number token is
  consumed (updating the accumulator) and the matcher succeeds, and anything else (or
  nothing) makes it fail. In particular the tokens of \<open>x^-2=0\<close> are rejected as an equation.
\<close>

theorem acceptExponent_spec:
  "((\<forall>rest. lp s \<noteq> Symbol CHR ''^'' # rest) \<longrightarrow> acceptExponent s = (True, s)) \<and>
   (lp s = Symbol CHR ''^'' # Symbol CHR ''-'' # rest1 \<longrightarrow>
      acceptExponent s = (False, s\<lparr>lp := rest1\<rparr>)) \<and>
   (lp s = Symbol CHR ''^'' # Number v # rest2 \<longrightarrow>
      acceptExponent s =
        (True, s\<lparr>lp := rest2,
                 biggestExponent := (if of_int (biggestExponent s) < v then double_to_int v
                                     else biggestExponent s)\<rparr>)) \<and>
   (lp s = Symbol CHR ''^'' # rest3 \<and> (\<forall>r. rest3 \<noteq> Symbol CHR ''-'' # r) \<and>
      (\<forall>w r. rest3 \<noteq> Number w # r) \<longrightarrow>
      acceptExponent s = (False, s\<lparr>lp := rest3\<rparr>)) \<and>
   \<not> fst (acceptEquation
      \<lparr>lp = [Identifier ''x'', Symbol CHR ''^'', Symbol CHR ''-'', Number 2,
              Symbol CHR ''='', Number 0], biggestExponent = b\<rparr>)"
proof -
  have "\<not> fst (acceptEquation
      \<lparr>lp = [Identifier ''x'', Symbol CHR ''^'', Symbol CHR ''-'', Number 2,
              Symbol CHR ''='', Number 0], biggestExponent = b\<rparr>)"
    by (simp add: eval_simps)
  then show ?thesis
    using acceptExponent_other [of s] acceptExponent_minus [of s rest1]
      acceptExponent_number [of s v rest2] acceptExponent_neither [of s rest3]
    by simp
qed

text \<open>The four cases of C5 on concrete cursors.\<close>

theorem acceptExponent_spec_witness:
  "acceptExponent \<lparr>lp = [Symbol CHR ''+'', Number 1], biggestExponent = 0\<rparr> =
     (True, \<lparr>lp = [Symbol CHR ''+'', Number 1], biggestExponent = 0\<rparr>) \<and>
   acceptExponent \<lparr>lp = [Symbol CHR ''^'', Symbol CHR ''-'', Number 2], biggestExponent = 0\<rparr> =
     (False, \<lparr>lp = [Number 2], biggestExponent = 0\<rparr>) \<and>
   acceptExponent \<lparr>lp = [Symbol CHR ''^'', Number 3, Symbol CHR ''+''], biggestExponent = 0\<rparr> =
     (True, \<lparr>lp = [Symbol CHR ''+''], biggestExponent = 3\<rparr>) \<and>
   acceptExponent \<lparr>lp = [Symbol CHR ''^'', Identifier ''y''], biggestExponent = 0\<rparr> =
     (False, \<lparr>lp = [Identifier ''y''], biggestExponent = 0\<rparr>)"
  using
    acceptExponent_spec [of "\<lparr>lp = [Symbol CHR ''+'', Number 1], biggestExponent = 0\<rparr>"]
    acceptExponent_spec [of "\<lparr>lp = [Symbol CHR ''^'', Symbol CHR ''-'', Number 2], biggestExponent = 0\<rparr>"
      "[Number 2]"]
    acceptExponent_spec [of "\<lparr>lp = [Symbol CHR ''^'', Number 3, Symbol CHR ''+''], biggestExponent = 0\<rparr>"
      _ 3 "[Symbol CHR ''+'']"]
    acceptExponent_spec [of "\<lparr>lp = [Symbol CHR ''^'', Identifier ''y''], biggestExponent = 0\<rparr>"
      _ _ _ "[Identifier ''y'']"]
  by (simp add: double_to_int_def in_int_range_def int_value_def INT_MIN_def INT_MAX_def
      trunc_toward_zero_def)

section \<open>The equation matcher\<close>

text \<open>
  C4. \<open>acceptEquation\<close> accepts exactly when an expression is matched, then \<open>'='\<close>, then a
  second expression, each from the state the previous one left. The conjunction
  short-circuits: when the first expression fails the result state is the one it left,
  when \<open>'='\<close> is missing the state is the one the first expression left, and only otherwise
  is the second expression matched. A token list without \<open>'='\<close> is never accepted.
\<close>

theorem acceptEquation_spec:
  "(fst (acceptEquation s) \<longleftrightarrow>
      (\<exists>s1 s2. acceptExpression s = (True, s1) \<and>
         acceptCharacter s1 CHR ''='' = (True, s2) \<and> fst (acceptExpression s2))) \<and>
   (\<not> fst (acceptExpression s) \<longrightarrow> acceptEquation s = (False, snd (acceptExpression s))) \<and>
   (fst (acceptExpression s) \<and> \<not> fst (acceptCharacter (snd (acceptExpression s)) CHR ''='') \<longrightarrow>
      acceptEquation s = (False, snd (acceptExpression s))) \<and>
   (fst (acceptExpression s) \<and> fst (acceptCharacter (snd (acceptExpression s)) CHR ''='') \<longrightarrow>
      acceptEquation s =
        acceptExpression (snd (acceptCharacter (snd (acceptExpression s)) CHR ''=''))) \<and>
   (Symbol CHR ''='' \<notin> set (lp s) \<longrightarrow> \<not> fst (acceptEquation s))"
proof -
  have a: "fst (acceptEquation s) \<longleftrightarrow>
      (\<exists>s1 s2. acceptExpression s = (True, s1) \<and>
         acceptCharacter s1 CHR ''='' = (True, s2) \<and> fst (acceptExpression s2))"
    by (auto simp: acceptEquation_def split: prod.splits)
  have b: "\<not> fst (acceptEquation s)" if n: "Symbol CHR ''='' \<notin> set (lp s)"
  proof
    assume "fst (acceptEquation s)"
    with a obtain s1 s2 where 1: "acceptExpression s = (True, s1)"
      and 2: "acceptCharacter s1 CHR ''='' = (True, s2)" by blast
    from 1 have "set (lp s1) \<subseteq> set (lp s)"
      using parsed_suffix [OF parsed_acceptExpression [of s]] by simp
    moreover from 2 have "Symbol CHR ''='' \<in> set (lp s1)"
      by (auto dest: acceptCharacter_True)
    ultimately show False using n by blast
  qed
  show ?thesis
    using a b by (simp add: acceptEquation_unfold)
qed

text \<open>C4 on \<open>x+1\<close> (no \<open>'='\<close>), on \<open>x=1\<close> and on \<open>=1\<close> (no first expression).\<close>

theorem acceptEquation_spec_witness:
  "Symbol CHR ''='' \<notin> set (lp \<lparr>lp = [Identifier ''x'', Symbol CHR ''+'', Number 1], biggestExponent = 0\<rparr>) \<and>
   \<not> fst (acceptEquation \<lparr>lp = [Identifier ''x'', Symbol CHR ''+'', Number 1], biggestExponent = 0\<rparr>) \<and>
   fst (acceptExpression \<lparr>lp = [Identifier ''x'', Symbol CHR ''='', Number 1], biggestExponent = 0\<rparr>) \<and>
   fst (acceptCharacter (snd (acceptExpression
         \<lparr>lp = [Identifier ''x'', Symbol CHR ''='', Number 1], biggestExponent = 0\<rparr>)) CHR ''='') \<and>
   acceptEquation \<lparr>lp = [Identifier ''x'', Symbol CHR ''='', Number 1], biggestExponent = 0\<rparr> =
     (True, \<lparr>lp = [], biggestExponent = 0\<rparr>) \<and>
   \<not> fst (acceptExpression \<lparr>lp = [Symbol CHR ''='', Number 1], biggestExponent = 0\<rparr>) \<and>
   acceptEquation \<lparr>lp = [Symbol CHR ''='', Number 1], biggestExponent = 0\<rparr> =
     (False, \<lparr>lp = [Symbol CHR ''='', Number 1], biggestExponent = 0\<rparr>)"
proof -
  let ?a = "\<lparr>lp = [Identifier ''x'', Symbol CHR ''+'', Number 1], biggestExponent = 0\<rparr>"
  let ?b = "\<lparr>lp = [Identifier ''x'', Symbol CHR ''='', Number 1], biggestExponent = 0\<rparr>"
  let ?c = "\<lparr>lp = [Symbol CHR ''='', Number 1], biggestExponent = 0\<rparr>"
  have ha: "Symbol CHR ''='' \<notin> set (lp ?a)" by simp
  have hb: "acceptExpression ?b = (True, \<lparr>lp = [Symbol CHR ''='', Number 1], biggestExponent = 0\<rparr>)"
    by (simp add: eval_simps)
  have hb': "acceptCharacter \<lparr>lp = [Symbol CHR ''='', Number 1], biggestExponent = 0\<rparr> CHR ''='' =
      (True, \<lparr>lp = [Number 1], biggestExponent = 0\<rparr>)"
    by (simp add: eval_simps)
  have hb'': "acceptExpression \<lparr>lp = [Number 1], biggestExponent = 0\<rparr> =
      (True, \<lparr>lp = [], biggestExponent = 0\<rparr>)"
    by (simp add: eval_simps)
  have hc: "acceptExpression ?c = (False, ?c)" by (simp add: eval_simps)
  have 1: "\<not> fst (acceptEquation ?a)"
    using acceptEquation_spec [of ?a] ha by blast
  have "fst (acceptExpression ?b) \<and> fst (acceptCharacter (snd (acceptExpression ?b)) CHR ''='')"
    using hb hb' by simp
  then have "acceptEquation ?b =
      acceptExpression (snd (acceptCharacter (snd (acceptExpression ?b)) CHR ''=''))"
    using acceptEquation_spec [of ?b] by blast
  then have 2: "acceptEquation ?b = (True, \<lparr>lp = [], biggestExponent = 0\<rparr>)"
    using hb hb' hb'' by simp
  have "\<not> fst (acceptExpression ?c)" using hc by simp
  then have "acceptEquation ?c = (False, snd (acceptExpression ?c))"
    using acceptEquation_spec [of ?c] by blast
  then have 3: "acceptEquation ?c = (False, ?c)" using hc by simp
  show ?thesis using ha hb hb' hc 1 2 3 by simp
qed

section \<open>Counting the variables\<close>

lemma strcmp_eq_0: "strcmp a b = 0 \<longleftrightarrow> a = b"
  by (induction a b rule: strcmp.induct) auto

lemma determineVariables_while_Some:
  "determineVariables_while (Some f) l =
     (if \<exists>n. n \<in> set (identifiers l) \<and> n \<noteq> f then 2 else 1)"
  by (induction l) (auto simp: strcmp_eq_0 split: token.splits)

lemma determineVariables_while_None:
  "determineVariables_while None l =
     (case identifiers l of
        [] \<Rightarrow> 0
      | f # rest \<Rightarrow> (if \<exists>n. n \<in> set rest \<and> n \<noteq> f then 2 else 1))"
  by (induction l) (auto simp: strcmp_eq_0 determineVariables_while_Some split: token.splits)

text \<open>
  C6. \<open>determineVariables\<close> returns 0 exactly when the token list has no Identifier token,
  2 exactly when some Identifier token is spelled differently from the first Identifier
  token, and 1 otherwise (there is an identifier and all are spelled like the first one).
  The loop keeps only the first spelling it has seen. The tokens of \<open>x+y=3\<close> give 2.
\<close>

theorem determineVariables_spec:
  "(determineVariables l = 0 \<longleftrightarrow> identifiers l = []) \<and>
   (determineVariables l = 2 \<longleftrightarrow>
      (\<exists>n. n \<in> set (identifiers l) \<and> n \<noteq> hd (identifiers l))) \<and>
   (determineVariables l = 1 \<longleftrightarrow>
      identifiers l \<noteq> [] \<and> (\<forall>n. n \<in> set (identifiers l) \<longrightarrow> n = hd (identifiers l))) \<and>
   identifiers
     [Identifier ''x'', Symbol CHR ''+'', Identifier ''y'', Symbol CHR ''='', Number 3] =
     [''x'', ''y''] \<and>
   determineVariables
     [Identifier ''x'', Symbol CHR ''+'', Identifier ''y'', Symbol CHR ''='', Number 3] = 2"
  unfolding determineVariables_def determineVariables_while_None
  by (cases "identifiers l") (auto simp: strcmp_eq_0)

text \<open>C6 on \<open>3+4=7\<close>, on \<open>x=x\<close> and on \<open>x=xy\<close>.\<close>

theorem determineVariables_spec_witness:
  "determineVariables [Number 3, Symbol CHR ''+'', Number 4, Symbol CHR ''='', Number 7] = 0 \<and>
   determineVariables [Identifier ''x'', Symbol CHR ''='', Identifier ''x''] = 1 \<and>
   determineVariables [Identifier ''x'', Symbol CHR ''='', Identifier ''xy''] = 2"
  using
    determineVariables_spec [of "[Number 3, Symbol CHR ''+'', Number 4, Symbol CHR ''='', Number 7]"]
    determineVariables_spec [of "[Identifier ''x'', Symbol CHR ''='', Identifier ''x'']"]
    determineVariables_spec [of "[Identifier ''x'', Symbol CHR ''='', Identifier ''xy'']"]
  by auto

section \<open>What the driver reports\<close>

text \<open>
  C3. The driver reports a token list as an equation (in one variable, with a degree, or
  not in one variable) exactly when \<open>acceptEquation\<close> accepts and the cursor is \<open>NULL\<close>
  afterwards; in every other case, also when \<open>acceptEquation\<close> accepts and tokens are left,
  it reports that the input is not an equation.
\<close>

theorem recognizeLine_valid_iff:
  "((fst (recognizeLine tlist b) = [EquationNotInOneVariable] \<or>
     (\<exists>d. fst (recognizeLine tlist b) = [EquationInOneVariable, OfDegree d])) \<longleftrightarrow>
    fst (acceptEquation \<lparr>lp = tlist, biggestExponent = b\<rparr>) \<and>
    lp (snd (acceptEquation \<lparr>lp = tlist, biggestExponent = b\<rparr>)) = []) \<and>
   (fst (recognizeLine tlist b) = [NotAnEquation] \<longleftrightarrow>
    \<not> (fst (acceptEquation \<lparr>lp = tlist, biggestExponent = b\<rparr>) \<and>
       lp (snd (acceptEquation \<lparr>lp = tlist, biggestExponent = b\<rparr>)) = []))"
  by (auto simp: recognizeLine_def split: prod.splits)

text \<open>C3 on \<open>x=1 2\<close>, accepted with a token left, and on \<open>x=1\<close>.\<close>

theorem recognizeLine_valid_iff_witness:
  "acceptEquation \<lparr>lp = [Identifier ''x'', Symbol CHR ''='', Number 1, Number 2],
                    biggestExponent = 0\<rparr> = (True, \<lparr>lp = [Number 2], biggestExponent = 0\<rparr>) \<and>
   fst (recognizeLine [Identifier ''x'', Symbol CHR ''='', Number 1, Number 2] 0) = [NotAnEquation] \<and>
   acceptEquation \<lparr>lp = [Identifier ''x'', Symbol CHR ''='', Number 1],
                    biggestExponent = 0\<rparr> = (True, \<lparr>lp = [], biggestExponent = 0\<rparr>) \<and>
   fst (recognizeLine [Identifier ''x'', Symbol CHR ''='', Number 1] 0) \<noteq> [NotAnEquation]"
proof -
  have a: "acceptEquation \<lparr>lp = [Identifier ''x'', Symbol CHR ''='', Number 1, Number 2],
      biggestExponent = 0\<rparr> = (True, \<lparr>lp = [Number 2], biggestExponent = 0\<rparr>)"
    by (simp add: eval_simps)
  have b: "acceptEquation \<lparr>lp = [Identifier ''x'', Symbol CHR ''='', Number 1],
      biggestExponent = 0\<rparr> = (True, \<lparr>lp = [], biggestExponent = 0\<rparr>)"
    by (simp add: eval_simps)
  show ?thesis
    using a b
      recognizeLine_valid_iff [of "[Identifier ''x'', Symbol CHR ''='', Number 1, Number 2]" 0]
      recognizeLine_valid_iff [of "[Identifier ''x'', Symbol CHR ''='', Number 1]" 0]
    by simp
qed

section \<open>The accumulator during a parse\<close>

lemma valueNumber_Number:
  "lp s = Number v # rest \<Longrightarrow>
   valueNumber s wp =
     (True, v, s\<lparr>lp := rest,
                  biggestExponent := (if of_int (biggestExponent s) < v then double_to_int v
                                      else biggestExponent s)\<rparr>)"
  by (simp add: valueNumber_def Let_def)










text \<open>
  C9, as the code has it. \<open>valueNumber\<close> reads the payload of the Number token into \<open>*wp\<close> as
  it is, compares that value, not a truncated one, with the accumulator, and on update
  stores it into the \<open>int\<close> accumulator: when the payload is in the range of \<open>int\<close>, the
  stored value is the payload truncated toward zero (its absolute value is the integer
  part of the payload's, its sign is not opposite to the payload's). The payload 2.5
  read with the accumulator at 0 records 2.
\<close>

theorem valueNumber_truncates:
  "(lp s = Number v # rest \<and> of_int (biggestExponent s) < v \<and> in_int_range v \<longrightarrow>
      valueNumber s wp =
        (True, v, s\<lparr>lp := rest, biggestExponent := trunc_toward_zero v\<rparr>)) \<and>
   (lp s = Number v # rest \<and> \<not> of_int (biggestExponent s) < v \<longrightarrow>
      valueNumber s wp = (True, v, s\<lparr>lp := rest\<rparr>)) \<and>
   \<bar>of_int (trunc_toward_zero v)\<bar> \<le> \<bar>v\<bar> \<and>
   \<bar>v\<bar> < \<bar>of_int (trunc_toward_zero v)\<bar> + 1 \<and>
   0 \<le> of_int (trunc_toward_zero v) * v \<and>
   (in_int_range v \<longrightarrow> double_to_int v = trunc_toward_zero v) \<and>
   valueNumber \<lparr>lp = [Number (5 / 2)], biggestExponent = 0\<rparr> 0 =
     (True, 5 / 2, \<lparr>lp = [], biggestExponent = 2\<rparr>)"
proof -
  have a: "\<bar>of_int (trunc_toward_zero v)\<bar> \<le> \<bar>v\<bar>"
    unfolding trunc_toward_zero_def by (simp; linarith)
  have b: "\<bar>v\<bar> < \<bar>of_int (trunc_toward_zero v)\<bar> + 1"
    unfolding trunc_toward_zero_def by (simp; linarith)
  have c: "0 \<le> of_int (trunc_toward_zero v) * v"
  proof (cases "0 \<le> v")
    case True
    then have "(0 :: rat) \<le> of_int \<lfloor>v\<rfloor>" by simp
    with True show ?thesis by (simp add: trunc_toward_zero_def)
  next
    case False
    then have "of_int \<lceil>v\<rceil> \<le> (0 :: rat)" by (simp add: ceiling_le_iff)
    with False show ?thesis by (simp add: trunc_toward_zero_def mult_nonpos_nonpos)
  qed
  have d: "valueNumber \<lparr>lp = [Number (5 / 2)], biggestExponent = 0\<rparr> 0 =
     (True, 5 / 2, \<lparr>lp = [], biggestExponent = 2\<rparr>)"
  proof -
    have "\<lfloor>5 / 2 :: rat\<rfloor> = 2" by (rule floor_unique) simp_all
    then have "double_to_int (5 / 2) = 2"
      by (simp add: double_to_int_def in_int_range_def int_value_def INT_MIN_def INT_MAX_def
          trunc_toward_zero_def)
    then show ?thesis by (simp add: valueNumber_def Let_def)
  qed
  show ?thesis
    using a b c d by (simp add: valueNumber_Number double_to_int_in_range)
qed

text \<open>C9 on the payloads 3.5 (above the accumulator 1) and 0.5 (not above it).\<close>

theorem valueNumber_truncates_witness:
  "lp \<lparr>lp = [Number (7 / 2), Symbol CHR ''+''], biggestExponent = 1\<rparr> =
     Number (7 / 2) # [Symbol CHR ''+''] \<and>
   of_int (biggestExponent \<lparr>lp = [Number (7 / 2), Symbol CHR ''+''], biggestExponent = 1\<rparr>)
     < (7 / 2 :: rat) \<and>
   in_int_range (7 / 2) \<and>
   valueNumber \<lparr>lp = [Number (7 / 2), Symbol CHR ''+''], biggestExponent = 1\<rparr> 0 =
     (True, 7 / 2, \<lparr>lp = [Symbol CHR ''+''], biggestExponent = 3\<rparr>) \<and>
   double_to_int (7 / 2) = 3 \<and>
   lp \<lparr>lp = [Number (1 / 2)], biggestExponent = 1\<rparr> = Number (1 / 2) # [] \<and>
   \<not> of_int (biggestExponent \<lparr>lp = [Number (1 / 2)], biggestExponent = 1\<rparr>) < (1 / 2 :: rat) \<and>
   valueNumber \<lparr>lp = [Number (1 / 2)], biggestExponent = 1\<rparr> 0 =
     (True, 1 / 2, \<lparr>lp = [], biggestExponent = 1\<rparr>)"
proof -
  let ?s = "\<lparr>lp = [Number (7 / 2), Symbol CHR ''+''], biggestExponent = 1\<rparr>"
  let ?t = "\<lparr>lp = [Number (1 / 2)], biggestExponent = 1\<rparr>"
  have h1: "lp ?s = Number (7 / 2) # [Symbol CHR ''+'']" by simp
  have h2: "of_int (biggestExponent ?s) < (7 / 2 :: rat)" by simp
  have f: "\<lfloor>7 / 2 :: rat\<rfloor> = 3" by (rule floor_unique) simp_all
  then have t: "trunc_toward_zero (7 / 2) = 3" by (simp add: trunc_toward_zero_def)
  then have h3: "in_int_range (7 / 2)"
    by (simp add: in_int_range_def int_value_def INT_MIN_def INT_MAX_def)
  have "valueNumber ?s 0 =
      (True, 7 / 2, ?s\<lparr>lp := [Symbol CHR ''+''], biggestExponent := trunc_toward_zero (7 / 2)\<rparr>)"
    using valueNumber_truncates [of ?s "7 / 2" "[Symbol CHR ''+'']" 0] h1 h2 h3 by blast
  then have 1: "valueNumber ?s 0 =
      (True, 7 / 2, \<lparr>lp = [Symbol CHR ''+''], biggestExponent = 3\<rparr>)"
    using t by simp
  have "double_to_int (7 / 2) = trunc_toward_zero (7 / 2)"
    using valueNumber_truncates [of _ "7 / 2"] h3 by blast
  then have 3: "double_to_int (7 / 2) = 3" using t by simp
  have g1: "lp ?t = Number (1 / 2) # []" by simp
  have g2: "\<not> of_int (biggestExponent ?t) < (1 / 2 :: rat)" by simp
  have "valueNumber ?t 0 = (True, 1 / 2, ?t\<lparr>lp := []\<rparr>)"
    using valueNumber_truncates [of ?t "1 / 2" "[]" 0] g1 g2 by blast
  then have 2: "valueNumber ?t 0 = (True, 1 / 2, \<lparr>lp = [], biggestExponent = 1\<rparr>)"
    by simp
  show ?thesis using h1 h2 h3 g1 g2 1 2 3 by simp
qed

text \<open>
  C9 as stated fails for a payload that is not in the range of \<open>int\<close>: the payload
  3000000000.5 exceeds the accumulator 0 and its truncation toward zero is 3000000000,
  but the value recorded is -2147483648.
\<close>

theorem valueNumber_truncates_counterexample:
  "of_int (biggestExponent \<lparr>lp = [Number (6000000001 / 2)], biggestExponent = 0\<rparr>)
     < (6000000001 / 2 :: rat) \<and>
   trunc_toward_zero (6000000001 / 2) = 3000000000 \<and>
   valueNumber \<lparr>lp = [Number (6000000001 / 2)], biggestExponent = 0\<rparr> 0 =
     (True, 6000000001 / 2, \<lparr>lp = [], biggestExponent = - 2147483648\<rparr>) \<and>
   biggestExponent (snd (snd (valueNumber
     \<lparr>lp = [Number (6000000001 / 2)], biggestExponent = 0\<rparr> 0))) \<noteq>
     trunc_toward_zero (6000000001 / 2)"
proof -
  have "\<lfloor>6000000001 / 2 :: rat\<rfloor> = 3000000000" by (rule floor_unique) simp_all
  then have t: "trunc_toward_zero (6000000001 / 2) = 3000000000"
    by (simp add: trunc_toward_zero_def)
  then have d: "double_to_int (6000000001 / 2) = - 2147483648"
    by (simp add: double_to_int_def in_int_range_def int_value_def INT_MIN_def INT_MAX_def)
  have v: "valueNumber \<lparr>lp = [Number (6000000001 / 2)], biggestExponent = 0\<rparr> 0 =
     (True, 6000000001 / 2, \<lparr>lp = [], biggestExponent = - 2147483648\<rparr>)"
    using d by (simp add: valueNumber_def Let_def)
  show ?thesis using t v by simp
qed

section \<open>The degree the driver reports\<close>


lemmas driver_simps = recognizeLine_def determineVariables_def strcmp_eq_0




section \<open>Rejection after tokens were consumed\<close>

text \<open>
  C1. A matcher that rejects is to leave the cursor where it was. On the tokens of
  \<open>x^-2=0\<close> the matchers \<open>acceptEquation\<close>, \<open>acceptExpression\<close> and \<open>acceptTerm\<close> return 0 with
  the cursor moved past \<open>x\<close>, \<open>'^'\<close> and \<open>'-'\<close>, and \<open>acceptExponent\<close> returns 0 with the cursor
  moved past \<open>'^'\<close> and \<open>'-'\<close>; on the single token \<open>3\<close> \<open>acceptEquation\<close> returns 0 with the
  cursor moved to \<open>NULL\<close>.
\<close>

theorem rejection_moves_cursor:
  "acceptEquation
     \<lparr>lp = [Identifier ''x'', Symbol CHR ''^'', Symbol CHR ''-'', Number 2, Symbol CHR ''='', Number 0],
        biggestExponent = 0\<rparr> =
     (False, \<lparr>lp = [Number 2, Symbol CHR ''='', Number 0], biggestExponent = 0\<rparr>) \<and>
   acceptExpression
     \<lparr>lp = [Identifier ''x'', Symbol CHR ''^'', Symbol CHR ''-'', Number 2, Symbol CHR ''='', Number 0],
        biggestExponent = 0\<rparr> =
     (False, \<lparr>lp = [Number 2, Symbol CHR ''='', Number 0], biggestExponent = 0\<rparr>) \<and>
   acceptTerm
     \<lparr>lp = [Identifier ''x'', Symbol CHR ''^'', Symbol CHR ''-'', Number 2, Symbol CHR ''='', Number 0],
        biggestExponent = 0\<rparr> =
     (False, \<lparr>lp = [Number 2, Symbol CHR ''='', Number 0], biggestExponent = 0\<rparr>) \<and>
   acceptExponent
     \<lparr>lp = [Symbol CHR ''^'', Symbol CHR ''-'', Number 2, Symbol CHR ''='', Number 0],
        biggestExponent = 0\<rparr> =
     (False, \<lparr>lp = [Number 2, Symbol CHR ''='', Number 0], biggestExponent = 0\<rparr>) \<and>
   acceptEquation \<lparr>lp = [Number 3], biggestExponent = 0\<rparr> =
     (False, \<lparr>lp = [], biggestExponent = 0\<rparr>)"
  by (simp add: eval_simps)

section \<open>The accumulator between two lines\<close>

text \<open>
  C2. The accumulator is to read 0 when the matching of a line starts. After the line
  \<open>x^3+y=0\<close> (an equation in two variables) and after the line \<open>x^3\<close> (not an equation) the
  next line \<open>x=1\<close> is matched with the accumulator at 3 and is reported with degree 3;
  only after a line reported as an equation in one variable does the next line start
  from 0.
\<close>

theorem accumulator_not_reset:
  "recognizeEquations
     [[Identifier ''x'', Symbol CHR ''^'', Number 3, Symbol CHR ''+'', Identifier ''y'',
       Symbol CHR ''='', Number 0],
      [Identifier ''x'', Symbol CHR ''='', Number 1]] 0 =
     [(0, [EquationNotInOneVariable]), (3, [EquationInOneVariable, OfDegree 3])] \<and>
   recognizeEquations
     [[Identifier ''x'', Symbol CHR ''^'', Number 3],
      [Identifier ''x'', Symbol CHR ''='', Number 1]] 0 =
     [(0, [NotAnEquation]), (3, [EquationInOneVariable, OfDegree 3])] \<and>
   recognizeEquations
     [[Identifier ''x'', Symbol CHR ''^'', Number 3, Symbol CHR ''='', Number 0],
      [Identifier ''x'', Symbol CHR ''='', Number 1]] 0 =
     [(0, [EquationInOneVariable, OfDegree 3]), (0, [EquationInOneVariable, OfDegree 1])]"
  by (simp add: eval_simps driver_simps)

section \<open>The empty token list\<close>

text \<open>
  C10. With the cursor at \<open>NULL\<close>, \<open>acceptNumber\<close>, \<open>acceptIdentifier\<close>, \<open>acceptCharacter\<close>,
  \<open>acceptTerm\<close>, \<open>acceptExpression\<close> and \<open>acceptEquation\<close> return 0 and leave the cursor (and
  the accumulator) as they were, whereas \<open>acceptExponent\<close> returns 1, having consumed
  nothing.
\<close>

theorem empty_list_matchers:
  "acceptNumber \<lparr>lp = [], biggestExponent = b\<rparr> = (False, \<lparr>lp = [], biggestExponent = b\<rparr>) \<and>
   acceptIdentifier \<lparr>lp = [], biggestExponent = b\<rparr> = (False, \<lparr>lp = [], biggestExponent = b\<rparr>) \<and>
   acceptCharacter \<lparr>lp = [], biggestExponent = b\<rparr> c = (False, \<lparr>lp = [], biggestExponent = b\<rparr>) \<and>
   acceptTerm \<lparr>lp = [], biggestExponent = b\<rparr> = (False, \<lparr>lp = [], biggestExponent = b\<rparr>) \<and>
   acceptExpression \<lparr>lp = [], biggestExponent = b\<rparr> = (False, \<lparr>lp = [], biggestExponent = b\<rparr>) \<and>
   acceptEquation \<lparr>lp = [], biggestExponent = b\<rparr> = (False, \<lparr>lp = [], biggestExponent = b\<rparr>) \<and>
   acceptExponent \<lparr>lp = [], biggestExponent = b\<rparr> = (True, \<lparr>lp = [], biggestExponent = b\<rparr>)"
  by (simp add: acceptNumber_def acceptIdentifier_def acceptCharacter_def acceptTerm_def
      acceptExpression_def acceptEquation_def acceptExponent_def)

end
